theory Spec2Isabelle
  imports Complex_Main "HOL-Library.Sublist" "HOL-Library.Multiset"
begin

section \<open>Errors, items and the provider\<close>

text \<open>
  The three kinds of exception the collection code distinguishes: \<open>EtherscanError\<close>
  (tested with \<open>instanceof\<close> in \<open>BlockchainService\<close>), \<open>StorageError\<close> (thrown by
  \<open>FileSystemStorage\<close>) and any other JavaScript \<open>Error\<close>. Each carries its message.
\<close>

datatype error = EtherscanError string | StorageError string | GenericError string

fun message :: "error \<Rightarrow> string" where
  "message (EtherscanError m) = m"
| "message (StorageError m) = m"
| "message (GenericError m) = m"

fun isEtherscanError :: "error \<Rightarrow> bool" where
  "isEtherscanError (EtherscanError m) = True"
| "isEtherscanError (StorageError m) = False"
| "isEtherscanError (GenericError m) = False"

text \<open>JavaScript's \<open>String.prototype.includes\<close>: the needle occurs as a contiguous substring.\<close>

fun str_includes :: "string \<Rightarrow> string \<Rightarrow> bool" where
  "str_includes [] needle = (needle = [])"
| "str_includes (c # cs) needle = (prefix needle (c # cs) \<or> str_includes cs needle)"

text \<open>
  \<open>Transaction\<close> and \<open>TokenTransfer\<close> share the two fields the collection code reads;
  \<open>blockNumber\<close> is the value of \<open>Number(t.blockNumber)\<close>, taken to be an integer.
\<close>

record Item =
  hash :: string
  blockNumber :: int

text \<open>
  The outcome of an awaited call: it returns a value, it throws, or the model has no
  further provider response to give it (\<open>Stalled\<close>), in which case nothing is known
  about how the execution goes on.
\<close>

datatype 'a outcome = Returned 'a | Threw error | Stalled

text \<open>The three paged queries of \<open>IBlockchainDataProvider\<close>.\<close>

datatype provider_method = GetTransactions | GetInternalTransactions | GetTokenTransfers

text \<open>
  The observable effects of a run, in the order they happen: a call of the provider with
  \<open>startBlock\<close>, \<open>endBlock\<close> and \<open>page\<close>, a sleep of so many milliseconds, a call of
  \<open>saveFn\<close> with a page of items, and the start of one iteration of the window loop.
\<close>

datatype event =
    Fetch provider_method int int nat
  | Delay nat
  | Save "Item list"
  | Window int int

text \<open>
  The provider is an external service. Its behaviour in one run is the list of results
  it gives to the successive calls, in call order.
\<close>

type_synonym script = "Item list outcome list"

fun callProvider ::
  "provider_method \<Rightarrow> int \<Rightarrow> int \<Rightarrow> nat \<Rightarrow> script \<Rightarrow> Item list outcome \<times> event list \<times> script" where
  "callProvider m s e p [] = (Stalled, [], [])"
| "callProvider m s e p (r # rs) = (r, [Fetch m s e p], rs)"

section \<open>BlockchainService\<close>

definition MAX_RECORDS_PER_CALL :: nat where "MAX_RECORDS_PER_CALL = 100"

definition BLOCK_RANGE :: int where "BLOCK_RANGE = 50000"

definition DELAY_BETWEEN_CALLS :: nat where "DELAY_BETWEEN_CALLS = 250"

definition MAX_RETRIES :: nat where "MAX_RETRIES = 3"

definition RETRY_DELAY :: nat where "RETRY_DELAY = 10000"

text \<open>
  \<open>retryOperation\<close>: the \<open>for\<close> loop over \<open>attempt\<close>, started at \<open>1\<close>. The operation is
  a transformer of the script that also reports its events.
\<close>

definition shouldRetry :: "nat \<Rightarrow> error \<Rightarrow> bool" where
  "shouldRetry attempt err =
     (let isLastAttempt = (attempt = MAX_RETRIES)
      in \<not> isLastAttempt \<and>
         (\<not> isEtherscanError err \<or> str_includes (message err) ''timeout''
            \<or> str_includes (message err) ''rate limit''))"

function retryOperation ::
  "(script \<Rightarrow> 'a outcome \<times> event list \<times> script) \<Rightarrow> string \<Rightarrow> nat \<Rightarrow> script
     \<Rightarrow> 'a outcome \<times> event list \<times> script" where
  "retryOperation operation description attempt sc =
     (if attempt \<le> MAX_RETRIES then
        (case operation sc of
           (Returned x, tr, sc') \<Rightarrow> (Returned x, tr, sc')
         | (Stalled, tr, sc') \<Rightarrow> (Stalled, tr, sc')
         | (Threw err, tr, sc') \<Rightarrow>
             if shouldRetry attempt err then
               (let delayTime = RETRY_DELAY * attempt;
                    (r, tr2, sc2) = retryOperation operation description (attempt + 1) sc'
                in (r, tr @ [Delay delayTime] @ tr2, sc2))
             else (Threw err, tr, sc'))
      else (Threw (GenericError (''Failed after 3 attempts: '' @ description)), [], sc))"
  by pat_completeness auto

termination
  by (relation "measure (\<lambda>(operation, description, attempt, sc). MAX_RETRIES + 1 - attempt)") auto

declare retryOperation.simps [simp del]

lemma retryOperation_consumes:
  "retryOperation (callProvider m s e p) d attempt sc = (r, tr, sc') \<Longrightarrow> attempt \<le> MAX_RETRIES
     \<Longrightarrow> r \<noteq> Stalled \<Longrightarrow> length sc' < length sc"
proof (induction "callProvider m s e p" d attempt sc arbitrary: r tr sc' rule: retryOperation.induct)
  case (1 d attempt sc)
  show ?case
  proof (cases sc)
    case Nil
    with "1.prems" show ?thesis
      by (simp add: retryOperation.simps [of _ _ attempt])
  next
    case (Cons x rs)
    show ?thesis
    proof (cases x)
      case (Returned items)
      with Cons "1.prems" show ?thesis
        by (simp add: retryOperation.simps [of _ _ attempt])
    next
      case Stalled
      with Cons "1.prems" show ?thesis
        by (simp add: retryOperation.simps [of _ _ attempt])
    next
      case (Threw err)
      show ?thesis
      proof (cases "shouldRetry attempt err")
        case False
        with Threw Cons "1.prems" show ?thesis
          by (simp add: retryOperation.simps [of _ _ attempt])
      next
        case True
        then have le: "attempt + 1 \<le> MAX_RETRIES"
          using "1.prems"(2) by (simp add: shouldRetry_def)
        obtain r2 tr2 sc2 where rec:
          "retryOperation (callProvider m s e p) d (attempt + 1) rs = (r2, tr2, sc2)"
          by (metis prod_cases3)
        with True Threw Cons "1.prems" have "r2 = r" "sc2 = sc'"
          by (simp_all add: retryOperation.simps [of _ _ attempt])
        with rec have rec': "retryOperation (callProvider m s e p) d (attempt + 1) rs = (r, tr2, sc')"
          by simp
        have "length sc' < length rs"
          using "1.hyps" [OF "1.prems"(2) _ _ _ True refl rec' le "1.prems"(3)] Cons Threw
          by simp
        with Cons show ?thesis by simp
      qed
    qed
  qed
qed

text \<open>
  The inner \<open>while (hasMoreData)\<close> loop of \<open>processBatchWithType\<close>, that is the body of
  its \<open>try\<close> block, for the window \<open>currentStart\<close> to \<open>currentEnd\<close>. \<open>saveFn\<close> works on
  a store of any type; it returns the error it throws, if any, and the store it leaves.
\<close>

function pageLoop ::
  "provider_method \<Rightarrow> (Item list \<Rightarrow> 's \<Rightarrow> error option \<times> 's) \<Rightarrow> string \<Rightarrow> int \<Rightarrow> int \<Rightarrow> nat
     \<Rightarrow> script \<Rightarrow> 's \<Rightarrow> unit outcome \<times> event list \<times> script \<times> 's" where
  "pageLoop fetchFn saveFn description currentStart currentEnd page sc st =
     (case retryOperation (callProvider fetchFn currentStart currentEnd page) description 1 sc of
        (Stalled, tr, sc') \<Rightarrow> (Stalled, tr, sc', st)
      | (Threw err, tr, sc') \<Rightarrow> (Threw err, tr, sc', st)
      | (Returned items, tr, sc') \<Rightarrow>
          if items = [] then (Returned (), tr, sc', st)
          else
            (case saveFn items st of
               (Some err, st') \<Rightarrow> (Threw err, tr @ [Save items], sc', st')
             | (None, st') \<Rightarrow>
                 if length items < MAX_RECORDS_PER_CALL
                 then (Returned (), tr @ [Save items], sc', st')
                 else
                   (let (r, tr2, sc2, st2) =
                          pageLoop fetchFn saveFn description currentStart currentEnd (page + 1) sc' st'
                    in (r, tr @ [Save items, Delay DELAY_BETWEEN_CALLS] @ tr2, sc2, st2))))"
  by pat_completeness auto

termination
proof (relation "measure (\<lambda>(fetchFn, saveFn, description, currentStart, currentEnd, page, sc, st). length sc)")
  show "wf (measure (\<lambda>(fetchFn, saveFn, description, currentStart, currentEnd, page, sc, st). length sc))"
    by simp
next
  fix fetchFn :: provider_method and saveFn :: "Item list \<Rightarrow> 's \<Rightarrow> error option \<times> 's"
    and description :: string and currentStart currentEnd :: int and page :: nat
    and sc :: script and st :: 's and r :: "Item list outcome" and y :: "event list \<times> script"
    and items :: "Item list" and tr :: "event list" and sc' :: script
    and serr :: "error option" and st' :: 's
  assume "(r, y) = retryOperation (callProvider fetchFn currentStart currentEnd page) description 1 sc"
    and "r = Returned items" and "(tr, sc') = y"
  then have "retryOperation (callProvider fetchFn currentStart currentEnd page) description 1 sc
               = (Returned items, tr, sc')"
    by simp
  then have "length sc' < length sc"
    by (rule retryOperation_consumes) (simp_all add: MAX_RETRIES_def)
  then show "((fetchFn, saveFn, description, currentStart, currentEnd, page + 1, sc', st'),
           (fetchFn, saveFn, description, currentStart, currentEnd, page, sc, st))
          \<in> measure (\<lambda>(fetchFn, saveFn, description, currentStart, currentEnd, page, sc, st). length sc)"
    by simp
qed

declare pageLoop.simps [simp del]

lemma pageLoop_consumes:
  "pageLoop fetchFn saveFn d cs ce page sc st = (r, tr, sc', st') \<Longrightarrow> r \<noteq> Stalled
     \<Longrightarrow> length sc' < length sc"
proof (induction fetchFn saveFn d cs ce page sc st arbitrary: r tr sc' st' rule: pageLoop.induct)
  case (1 fetchFn saveFn d cs ce page sc st)
  obtain r1 tr1 sc1 where ro:
    "retryOperation (callProvider fetchFn cs ce page) d 1 sc = (r1, tr1, sc1)"
    by (metis prod_cases3)
  show ?case
  proof (cases r1)
    case Stalled
    with ro "1.prems" show ?thesis
      by (simp add: pageLoop.simps [of _ _ _ _ _ page])
  next
    case (Threw err)
    with ro have "length sc1 < length sc"
      using retryOperation_consumes [OF ro] by (simp add: MAX_RETRIES_def)
    with ro Threw "1.prems" show ?thesis
      by (simp add: pageLoop.simps [of _ _ _ _ _ page])
  next
    case (Returned items)
    with ro have lt: "length sc1 < length sc"
      using retryOperation_consumes [OF ro] by (simp add: MAX_RETRIES_def)
    obtain serr st1 where sv: "saveFn items st = (serr, st1)"
      by (metis surj_pair)
    show ?thesis
    proof (cases "items = [] \<or> serr \<noteq> None \<or> length items < MAX_RECORDS_PER_CALL")
      case True
      with ro Returned sv lt "1.prems" show ?thesis
        by (auto simp: pageLoop.simps [of _ _ _ _ _ page] split: if_splits option.splits)
    next
      case False
      obtain r2 tr2 sc2 st2 where rec:
        "pageLoop fetchFn saveFn d cs ce (page + 1) sc1 st1 = (r2, tr2, sc2, st2)"
        by (metis prod_cases4)
      with False ro Returned sv "1.prems" have eq: "r2 = r" "sc2 = sc'"
        by (auto simp: pageLoop.simps [of _ _ _ _ _ page])
      from "1.IH" [of r1 "(tr1, sc1)" items tr1 sc1 serr st1 r2 tr2 sc2 st2]
        ro Returned sv False rec eq "1.prems"(2)
      have "length sc2 < length sc1" by simp
      with lt eq show ?thesis by simp
    qed
  qed
qed

text \<open>
  The outer \<open>while (currentStart <= endBlock)\<close> loop with its \<open>catch\<close> block. A window
  whose pages are exhausted, or that ends in an \<open>EtherscanError\<close> with
  \<open>No transactions found\<close>, is followed by \<open>currentStart = currentEnd + 1\<close>; on
  \<open>Max rate limit reached\<close> the loop sleeps 5000 ms and takes the same window again;
  every other error leaves the function.
\<close>

function batchLoop ::
  "provider_method \<Rightarrow> (Item list \<Rightarrow> 's \<Rightarrow> error option \<times> 's) \<Rightarrow> string \<Rightarrow> int \<Rightarrow> int
     \<Rightarrow> script \<Rightarrow> 's \<Rightarrow> unit outcome \<times> event list \<times> script \<times> 's" where
  "batchLoop fetchFn saveFn description currentStart endBlock sc st =
     (if currentStart \<le> endBlock then
        (let currentEnd = min (currentStart + BLOCK_RANGE - 1) endBlock
         in case pageLoop fetchFn saveFn description currentStart currentEnd 1 sc st of
              (Stalled, tr, sc', st') \<Rightarrow> (Stalled, Window currentStart currentEnd # tr, sc', st')
            | (Returned u, tr, sc', st') \<Rightarrow>
                (let (r, tr2, sc2, st2) =
                       batchLoop fetchFn saveFn description (currentEnd + 1) endBlock sc' st'
                 in (r, Window currentStart currentEnd # tr @ tr2, sc2, st2))
            | (Threw err, tr, sc', st') \<Rightarrow>
                if isEtherscanError err then
                  if str_includes (message err) ''No transactions found'' then
                    (let (r, tr2, sc2, st2) =
                           batchLoop fetchFn saveFn description (currentEnd + 1) endBlock sc' st'
                     in (r, Window currentStart currentEnd # tr @ tr2, sc2, st2))
                  else if str_includes (message err) ''Max rate limit reached'' then
                    (let (r, tr2, sc2, st2) =
                           batchLoop fetchFn saveFn description currentStart endBlock sc' st'
                     in (r, Window currentStart currentEnd # tr @ [Delay 5000] @ tr2, sc2, st2))
                  else (Threw err, Window currentStart currentEnd # tr, sc', st')
                else (Threw err, Window currentStart currentEnd # tr, sc', st'))
      else (Returned (), [], sc, st))"
  by pat_completeness auto

termination
proof (relation "measure (\<lambda>(fetchFn, saveFn, description, currentStart, endBlock, sc, st). length sc)",
    goal_cases)
  case 1
  show ?case by simp
next
  case (2 fetchFn saveFn description currentStart endBlock sc st currentEnd r y u tr z sc' st')
  then have "pageLoop fetchFn saveFn description currentStart currentEnd 1 sc st
               = (Returned u, tr, sc', st')"
    by simp
  then have "length sc' < length sc"
    by (rule pageLoop_consumes) simp
  then show ?case by simp
next
  case (3 fetchFn saveFn description currentStart endBlock sc st currentEnd r y err tr z sc' st')
  then have "pageLoop fetchFn saveFn description currentStart currentEnd 1 sc st
               = (Threw err, tr, sc', st')"
    by simp
  then have "length sc' < length sc"
    by (rule pageLoop_consumes) simp
  then show ?case by simp
next
  case (4 fetchFn saveFn description currentStart endBlock sc st currentEnd r y err tr z sc' st')
  then have "pageLoop fetchFn saveFn description currentStart currentEnd 1 sc st
               = (Threw err, tr, sc', st')"
    by simp
  then have "length sc' < length sc"
    by (rule pageLoop_consumes) simp
  then show ?case by simp
qed

declare batchLoop.simps [simp del]

text \<open>
  \<open>processBatchWithType\<close> sets \<open>currentStart = startBlock\<close> and runs the loop. Its
  parameters \<open>name\<close> and \<open>state\<close> are never read and are left out.
\<close>

definition processBatchWithType ::
  "provider_method \<Rightarrow> (Item list \<Rightarrow> 's \<Rightarrow> error option \<times> 's) \<Rightarrow> int \<Rightarrow> int \<Rightarrow> string
     \<Rightarrow> script \<Rightarrow> 's \<Rightarrow> unit outcome \<times> event list \<times> script \<times> 's" where
  "processBatchWithType fetchFn saveFn startBlock endBlock description sc st =
     batchLoop fetchFn saveFn description startBlock endBlock sc st"

section \<open>FileSystemStorage\<close>

text \<open>
  The persisted \<open>StorageState\<close> of one organization (\<open>state.json\<close>). The three
  \<open>lastProcessedTimestamp\<close> fields, which every write sets to the wall clock, are not
  modelled; \<open>transactionTypes.normal\<close> and its siblings are the fields \<open>normal\<close>,
  \<open>internal\<close> and \<open>tokenTransfers\<close>; the field \<open>count\<close> is \<open>itemCount\<close>.
\<close>

record TypeCursor =
  lastBlock :: int
  itemCount :: int

record ContractEventState =
  contractLastBlock :: int
  eventCounts :: "string \<rightharpoonup> nat"

record EventsState =
  eventsLastBlock :: int
  eventsCount :: int
  contractAddresses :: "string \<rightharpoonup> ContractEventState"

record StorageState =
  lastProcessedBlock :: int
  totalTransactions :: int
  normal :: TypeCursor
  internal :: TypeCursor
  tokenTransfers :: TypeCursor
  events :: "EventsState option"


datatype tx_type = Normal | Internal

text \<open>
  What can go wrong in one call of a save method: nothing; \<open>writeRecords\<close> throws after
  so many batches have been appended to the CSV file; or the update of \<open>state.json\<close>
  throws after all records have been appended. In each case of failure the method throws
  a \<open>StorageError\<close>. \<open>writeJSONSafely\<close> writes to a temporary file and renames it, so
  a failed update leaves \<open>state.json\<close> as it was.
\<close>

datatype fs_fault = NoFault | WriteFault nat | StateFault

text \<open>
  The storage of one organization: the three CSV files (their records, in file order),
  \<open>state.json\<close> if it exists, the number of times \<open>state.json\<close> has been written, and
  the faults the coming calls of the save methods will meet (none once the list is used
  up). The other calls of the file system are taken to succeed.
\<close>

record FileSystem =
  batchSize :: nat
  normalCsv :: "Item list"
  internalCsv :: "Item list"
  tokenTransfersCsv :: "Item list"
  stateJson :: "StorageState option"
  stateWrites :: nat
  faults :: "fs_fault list"

text \<open>The constructor: \<open>batchSize = options.batchSize || 1000\<close>, with no file written yet.\<close>

definition newFileSystemStorage :: "nat option \<Rightarrow> fs_fault list \<Rightarrow> FileSystem" where
  "newFileSystemStorage optBatchSize plan =
     \<lparr>batchSize = (case optBatchSize of None \<Rightarrow> 1000 | Some n \<Rightarrow> if n = 0 then 1000 else n),
      normalCsv = [], internalCsv = [], tokenTransfersCsv = [], stateJson = None,
      stateWrites = 0, faults = plan\<rparr>"

definition nextFault :: "FileSystem \<Rightarrow> fs_fault \<times> FileSystem" where
  "nextFault fs = (case faults fs of [] \<Rightarrow> (NoFault, fs) | f # rest \<Rightarrow> (f, fs\<lparr>faults := rest\<rparr>))"

definition initialState :: StorageState where
  "initialState =
     \<lparr>lastProcessedBlock = 0, totalTransactions = 0,
      normal = \<lparr>lastBlock = 0, itemCount = 0\<rparr>,
      internal = \<lparr>lastBlock = 0, itemCount = 0\<rparr>,
      tokenTransfers = \<lparr>lastBlock = 0, itemCount = 0\<rparr>,
      events = Some \<lparr>eventsLastBlock = 0, eventsCount = 0, contractAddresses = Map.empty\<rparr>\<rparr>"

definition writeState :: "StorageState \<Rightarrow> FileSystem \<Rightarrow> FileSystem" where
  "writeState state fs = fs\<lparr>stateJson := Some state, stateWrites := stateWrites fs + 1\<rparr>"

definition initializeState :: "FileSystem \<Rightarrow> FileSystem" where
  "initializeState fs = (if stateJson fs = None then writeState initialState fs else fs)"

definition getCursor :: "tx_type \<Rightarrow> StorageState \<Rightarrow> TypeCursor" where
  "getCursor type state = (case type of Normal \<Rightarrow> normal state | Internal \<Rightarrow> internal state)"

definition setCursor :: "tx_type \<Rightarrow> TypeCursor \<Rightarrow> StorageState \<Rightarrow> StorageState" where
  "setCursor type c state =
     (case type of Normal \<Rightarrow> state\<lparr>normal := c\<rparr> | Internal \<Rightarrow> state\<lparr>internal := c\<rparr>)"

definition updateTransactionState :: "tx_type \<Rightarrow> int \<Rightarrow> nat \<Rightarrow> FileSystem \<Rightarrow> FileSystem" where
  "updateTransactionState type lastBlock' n fs =
     (let fs1 = (if stateJson fs = None then initializeState fs else fs)
      in case stateJson fs1 of
           None \<Rightarrow> fs1
         | Some state \<Rightarrow>
             (let c = getCursor type state;
                  c' = \<lparr>lastBlock = max (lastBlock c) lastBlock', itemCount = itemCount c + int n\<rparr>;
                  state' = (setCursor type c' state)
                    \<lparr>lastProcessedBlock := max (lastProcessedBlock state) lastBlock',
                     totalTransactions := totalTransactions state + int n\<rparr>
              in writeState state' fs1))"

definition updateTokenTransferState :: "int \<Rightarrow> nat \<Rightarrow> FileSystem \<Rightarrow> FileSystem" where
  "updateTokenTransferState lastBlock' n fs =
     (let fs1 = (if stateJson fs = None then initializeState fs else fs)
      in case stateJson fs1 of
           None \<Rightarrow> fs1
         | Some state \<Rightarrow>
             (let c = tokenTransfers state;
                  c' = \<lparr>lastBlock = max (lastBlock c) lastBlock', itemCount = itemCount c + int n\<rparr>;
                  state' = state
                    \<lparr>tokenTransfers := c',
                     lastProcessedBlock := max (lastProcessedBlock state) lastBlock'\<rparr>
              in writeState state' fs1))"

text \<open>
  The loop \<open>for (let i = 0; i < transactions.length; i += this.batchSize)\<close> with
  \<open>transactions.slice(i, i + this.batchSize)\<close>: the batches handed to \<open>writeRecords\<close>.
  The constructor never leaves \<open>batchSize\<close> at \<open>0\<close>.
\<close>

function writeBatches :: "nat \<Rightarrow> nat \<Rightarrow> 'a list \<Rightarrow> 'a list list" where
  "writeBatches bs i xs =
     (if i < length xs \<and> 0 < bs then take bs (drop i xs) # writeBatches bs (i + bs) xs else [])"
  by pat_completeness auto

termination
  by (relation "measure (\<lambda>(bs, i, xs). length xs - i)") auto

declare writeBatches.simps [simp del]

text \<open>\<open>Math.max(...transactions.map(t => Number(t.blockNumber)))\<close>, for a non-empty array.\<close>

definition maxBlockNumber :: "Item list \<Rightarrow> int" where
  "maxBlockNumber transactions = Max (set (map blockNumber transactions))"

definition appendCsv :: "tx_type \<Rightarrow> Item list \<Rightarrow> FileSystem \<Rightarrow> FileSystem" where
  "appendCsv type records fs =
     (case type of
        Normal \<Rightarrow> fs\<lparr>normalCsv := normalCsv fs @ records\<rparr>
      | Internal \<Rightarrow> fs\<lparr>internalCsv := internalCsv fs @ records\<rparr>)"

text \<open>
  \<open>saveTransactions\<close>. \<open>Array.prototype.sort\<close> with the comparator
  \<open>Number(a.blockNumber) - Number(b.blockNumber)\<close> is a stable sort by block number, as
  \<open>sort_key\<close> is. The name of the organization is fixed and left out.
\<close>

definition typeName :: "tx_type \<Rightarrow> string" where
  "typeName type = (case type of Normal \<Rightarrow> ''normal'' | Internal \<Rightarrow> ''internal'')"

definition saveTransactions :: "tx_type \<Rightarrow> Item list \<Rightarrow> FileSystem \<Rightarrow> error option \<times> FileSystem" where
  "saveTransactions type transactions fs =
     (if transactions = [] then (None, fs)
      else
        (let (fault, fs1) = nextFault fs;
             sorted = sort_key blockNumber transactions;
             batches = writeBatches (batchSize fs1) 0 sorted;
             failure = StorageError (''Failed to save '' @ typeName type @ '' transactions'')
         in case fault of
              WriteFault k \<Rightarrow> (Some failure, appendCsv type (concat (take k batches)) fs1)
            | StateFault \<Rightarrow> (Some failure, appendCsv type (concat batches) fs1)
            | NoFault \<Rightarrow>
                (let lastBlock' = maxBlockNumber sorted
                 in (None, updateTransactionState type lastBlock' (length sorted)
                             (appendCsv type (concat batches) fs1)))))"

text \<open>\<open>saveTokenTransfers\<close>: as above, but the transfers are not sorted.\<close>

definition saveTokenTransfers :: "Item list \<Rightarrow> FileSystem \<Rightarrow> error option \<times> FileSystem" where
  "saveTokenTransfers transfers fs =
     (if transfers = [] then (None, fs)
      else
        (let (fault, fs1) = nextFault fs;
             batches = writeBatches (batchSize fs1) 0 transfers;
             failure = StorageError ''Failed to save token transfers'';
             written = (\<lambda>bs. fs1\<lparr>tokenTransfersCsv := tokenTransfersCsv fs1 @ concat bs\<rparr>)
         in case fault of
              WriteFault k \<Rightarrow> (Some failure, written (take k batches))
            | StateFault \<Rightarrow> (Some failure, written batches)
            | NoFault \<Rightarrow>
                (None, updateTokenTransferState (maxBlockNumber transfers) (length transfers)
                         (written batches))))"





text \<open>\<open>saveOrganization\<close>, as far as \<open>state.json\<close> goes: it calls \<open>initializeState\<close>.\<close>

definition saveOrganization :: "FileSystem \<Rightarrow> FileSystem" where
  "saveOrganization fs = initializeState fs"



section \<open>analyzeOrganization\<close>





section \<open>EtherscanClient\<close>

text \<open>
  The body of an answer of the Etherscan API: \<open>status\<close>, \<open>message\<close> (here
  \<open>apiMessage\<close>, absent or a string) and \<open>result\<close>, which is a string or an array of
  records.
\<close>

datatype payload = Text string | Rows "Item list"

record ApiResponse =
  status :: string
  apiMessage :: "string option"
  result :: payload

text \<open>
  What \<open>this.client.get\<close> does in one call: it answers, it throws an Axios error with a
  code and a message, or it throws something else.
\<close>

datatype http_reply = Response ApiResponse | AxiosError "string option" string | OtherFailure

datatype http_event = Request | Wait nat

definition CLIENT_MAX_RETRIES :: nat where "CLIENT_MAX_RETRIES = 3"

definition INITIAL_RETRY_DELAY :: nat where "INITIAL_RETRY_DELAY = 1000"

text \<open>\<open>response.data.message || response.data.result\<close>\<close>

definition errorMessageOf :: "ApiResponse \<Rightarrow> payload" where
  "errorMessageOf resp =
     (case apiMessage resp of
        None \<Rightarrow> result resp
      | Some m \<Rightarrow> if m = [] then result resp else Text m)"

text \<open>
  \<open>errorMessage.includes(needle)\<close>: on a string the substring test, on an array of
  records the test for an element equal to the needle, which is false.
\<close>

fun payloadIncludes :: "payload \<Rightarrow> string \<Rightarrow> bool" where
  "payloadIncludes (Text t) needle = str_includes t needle"
| "payloadIncludes (Rows rs) needle = False"

text \<open>The message of \<open>new EtherscanError(errorMessage)\<close>: the value as a string.\<close>

fun rowsToString :: "Item list \<Rightarrow> string" where
  "rowsToString [] = []"
| "rowsToString [r] = ''[object Object]''"
| "rowsToString (r # rs) = ''[object Object],'' @ rowsToString rs"

fun payloadText :: "payload \<Rightarrow> string" where
  "payloadText (Text t) = t"
| "payloadText (Rows rs) = rowsToString rs"

text \<open>
  \<open>makeRequest(params, retryCount)\<close> against the replies of the HTTP client, in call
  order. The wait of \<open>throttleRequest\<close> before each request is left out. The result of
  the recursive call is returned as it is.
\<close>

fun makeRequest :: "nat \<Rightarrow> http_reply list \<Rightarrow> payload outcome \<times> http_event list \<times> http_reply list" where
  "makeRequest retryCount [] = (Stalled, [], [])"
| "makeRequest retryCount (reply # rest) =
     (case reply of
        Response resp \<Rightarrow>
          if status resp = ''0'' then
            (let errorMessage = errorMessageOf resp
             in if payloadIncludes errorMessage ''No transactions found''
                then (Returned (Rows []), [Request], rest)
                else if (errorMessage = Text ''NOTOK''
                           \<or> payloadIncludes errorMessage ''Max rate limit reached'')
                        \<and> retryCount < CLIENT_MAX_RETRIES
                then (let delay = INITIAL_RETRY_DELAY * 2 ^ retryCount;
                          (r, tr, sc') = makeRequest (retryCount + 1) rest
                      in (r, Request # Wait delay # tr, sc'))
                else (Threw (EtherscanError (payloadText errorMessage)), [Request], rest))
          else (Returned (result resp), [Request], rest)
      | AxiosError code msg \<Rightarrow>
          (let isConnectionError = (code = Some ''ECONNRESET'' \<or> code = Some ''ETIMEDOUT'')
           in if isConnectionError \<and> retryCount < CLIENT_MAX_RETRIES
              then (let delay = INITIAL_RETRY_DELAY * 2 ^ retryCount;
                        (r, tr, sc') = makeRequest (retryCount + 1) rest
                    in (r, Request # Wait delay # tr, sc'))
              else (Threw (EtherscanError (''Network error: '' @ msg)), [Request], rest))
      | OtherFailure \<Rightarrow>
          (Threw (EtherscanError ''Failed to fetch data from Etherscan''), [Request], rest))"

text \<open>\<open>getTransactions\<close> and its two siblings call \<open>makeRequest(params)\<close>, with \<open>retryCount = 0\<close>.\<close>

definition getTransactions :: "http_reply list \<Rightarrow> payload outcome \<times> http_event list \<times> http_reply list" where
  "getTransactions replies = makeRequest 0 replies"

section \<open>RateLimiter\<close>








section \<open>Notions used in the claims\<close>

text \<open>
  The two ways the window loop goes on after the page loop: to the next window (the pages
  are exhausted, or the \<open>catch\<close> block met \<open>No transactions found\<close>), or to the same
  window again (it met \<open>Max rate limit reached\<close>).
\<close>

definition skipsWindow :: "unit outcome \<Rightarrow> bool" where
  "skipsWindow r =
     (case r of Returned u \<Rightarrow> True
      | Threw err \<Rightarrow> isEtherscanError err \<and> str_includes (message err) ''No transactions found''
      | Stalled \<Rightarrow> False)"

definition retriesWindow :: "unit outcome \<Rightarrow> bool" where
  "retriesWindow r =
     (case r of Returned u \<Rightarrow> False
      | Threw err \<Rightarrow> isEtherscanError err \<and> \<not> str_includes (message err) ''No transactions found''
          \<and> str_includes (message err) ''Max rate limit reached''
      | Stalled \<Rightarrow> False)"

text \<open>The windows iterated, the calls of the provider and the pages saved, read off a trace.\<close>

fun windowsOf :: "event list \<Rightarrow> (int \<times> int) list" where
  "windowsOf [] = []"
| "windowsOf (Window a b # tr) = (a, b) # windowsOf tr"
| "windowsOf (ev # tr) = windowsOf tr"

fun fetchesOf :: "event list \<Rightarrow> (provider_method \<times> int \<times> int \<times> nat) list" where
  "fetchesOf [] = []"
| "fetchesOf (Fetch m a b p # tr) = (m, a, b, p) # fetchesOf tr"
| "fetchesOf (ev # tr) = fetchesOf tr"

fun savesOf :: "event list \<Rightarrow> Item list list" where
  "savesOf [] = []"
| "savesOf (Save items # tr) = items # savesOf tr"
| "savesOf (ev # tr) = savesOf tr"



text \<open>
  The errors \<open>retryOperation\<close> retries before its last attempt: everything that is not an
  \<open>EtherscanError\<close>, and an \<open>EtherscanError\<close> whose message contains \<open>timeout\<close> or
  \<open>rate limit\<close>.
\<close>

definition retryable :: "error \<Rightarrow> bool" where
  "retryable err =
     (\<not> isEtherscanError err \<or> str_includes (message err) ''timeout''
        \<or> str_includes (message err) ''rate limit'')"

text \<open>The records of the CSV file of a type.\<close>

definition csvOf :: "tx_type \<Rightarrow> FileSystem \<Rightarrow> Item list" where
  "csvOf type fs = (case type of Normal \<Rightarrow> normalCsv fs | Internal \<Rightarrow> internalCsv fs)"



text \<open>The maximum of \<open>lastBlock\<close> over the three cursors of \<open>transactionTypes\<close>.\<close>

definition cursorsMax :: "StorageState \<Rightarrow> int" where
  "cursorsMax s =
     max (lastBlock (normal s)) (max (lastBlock (internal s)) (lastBlock (tokenTransfers s)))"


text \<open>A stored state, if there is one, has \<open>lastProcessedBlock\<close> at that maximum.\<close>

definition storedStateOk :: "FileSystem \<Rightarrow> bool" where
  "storedStateOk fs =
     (case stateJson fs of None \<Rightarrow> True | Some s \<Rightarrow> lastProcessedBlock s = cursorsMax s)"

text \<open>The persisted cursor of a type: \<open>lastBlock\<close> in \<open>state.json\<close>, \<open>0\<close> before the file exists.\<close>

definition cursorOf :: "tx_type \<Rightarrow> FileSystem \<Rightarrow> int" where
  "cursorOf type fs = (case stateJson fs of None \<Rightarrow> 0 | Some s \<Rightarrow> lastBlock (getCursor type s))"

text \<open>What one successful save makes of the cursor.\<close>

definition raiseCursor :: "Item list \<Rightarrow> int \<Rightarrow> int" where
  "raiseCursor items c = max c (maxBlockNumber items)"

section \<open>Facts about the loops\<close>

lemma retryOperation_cases [consumes 2, case_names stalled returned hung threw retry]:
  assumes "retryOperation (callProvider m s e p) d attempt sc = (r, tr, sc')"
    and "attempt \<le> MAX_RETRIES"
  obtains "sc = []" "r = Stalled" "tr = []" "sc' = []"
  | items where "sc = Returned items # sc'" "r = Returned items" "tr = [Fetch m s e p]"
  | "sc = Stalled # sc'" "r = Stalled" "tr = [Fetch m s e p]"
  | err where "sc = Threw err # sc'" "\<not> shouldRetry attempt err" "r = Threw err"
      "tr = [Fetch m s e p]"
  | err rs tr2 where "sc = Threw err # rs" "shouldRetry attempt err" "attempt + 1 \<le> MAX_RETRIES"
      "retryOperation (callProvider m s e p) d (attempt + 1) rs = (r, tr2, sc')"
      "tr = Fetch m s e p # Delay (RETRY_DELAY * attempt) # tr2"
proof (cases sc)
  case Nil
  with assms that(1) show ?thesis
    by (auto simp: retryOperation.simps [of _ _ attempt])
next
  case (Cons x rs)
  show ?thesis
  proof (cases x)
    case (Returned items)
    with Cons assms that(2) show ?thesis
      by (auto simp: retryOperation.simps [of _ _ attempt])
  next
    case Stalled
    with Cons assms that(3) show ?thesis
      by (auto simp: retryOperation.simps [of _ _ attempt])
  next
    case (Threw err)
    show ?thesis
    proof (cases "shouldRetry attempt err")
      case False
      with Threw Cons assms that(4) show ?thesis
        by (auto simp: retryOperation.simps [of _ _ attempt])
    next
      case True
      then have le: "attempt + 1 \<le> MAX_RETRIES"
        using assms(2) by (simp add: shouldRetry_def)
      obtain r2 tr2 sc2 where rec:
        "retryOperation (callProvider m s e p) d (attempt + 1) rs = (r2, tr2, sc2)"
        by (metis prod_cases3)
      with True Threw Cons assms that(5) [of err rs tr2] le show ?thesis
        by (auto simp: retryOperation.simps [of _ _ attempt])
    qed
  qed
qed

lemma pageLoop_cases [consumes 1, case_names stalled threw empty saveFailed short full]:
  assumes "pageLoop fetchFn saveFn d cs ce page sc st = (r, tr, sc', st')"
  obtains
    "retryOperation (callProvider fetchFn cs ce page) d 1 sc = (Stalled, tr, sc')"
      "r = Stalled" "st' = st"
  | err where "retryOperation (callProvider fetchFn cs ce page) d 1 sc = (Threw err, tr, sc')"
      "r = Threw err" "st' = st"
  | "retryOperation (callProvider fetchFn cs ce page) d 1 sc = (Returned [], tr, sc')"
      "r = Returned ()" "st' = st"
  | items tr1 err where
      "retryOperation (callProvider fetchFn cs ce page) d 1 sc = (Returned items, tr1, sc')"
      "items \<noteq> []" "saveFn items st = (Some err, st')" "r = Threw err" "tr = tr1 @ [Save items]"
  | items tr1 where
      "retryOperation (callProvider fetchFn cs ce page) d 1 sc = (Returned items, tr1, sc')"
      "items \<noteq> []" "saveFn items st = (None, st')" "length items < MAX_RECORDS_PER_CALL"
      "r = Returned ()" "tr = tr1 @ [Save items]"
  | items tr1 sc1 st1 tr2 where
      "retryOperation (callProvider fetchFn cs ce page) d 1 sc = (Returned items, tr1, sc1)"
      "items \<noteq> []" "saveFn items st = (None, st1)" "\<not> length items < MAX_RECORDS_PER_CALL"
      "pageLoop fetchFn saveFn d cs ce (page + 1) sc1 st1 = (r, tr2, sc', st')"
      "tr = tr1 @ [Save items, Delay DELAY_BETWEEN_CALLS] @ tr2"
      "length sc1 < length sc"
proof -
  obtain r1 tr1 sc1 where ro:
    "retryOperation (callProvider fetchFn cs ce page) d 1 sc = (r1, tr1, sc1)"
    by (metis prod_cases3)
  show ?thesis
  proof (cases r1)
    case Stalled
    with ro assms that(1) show ?thesis
      by (simp add: pageLoop.simps [of _ _ _ _ _ page])
  next
    case (Threw err)
    with ro assms that(2) show ?thesis
      by (simp add: pageLoop.simps [of _ _ _ _ _ page])
  next
    case (Returned items)
    have lt: "length sc1 < length sc"
      using retryOperation_consumes [OF ro] Returned by (simp add: MAX_RETRIES_def)
    obtain serr st1 where sv: "saveFn items st = (serr, st1)"
      by (metis surj_pair)
    obtain r2 tr2 sc2 st2 where rec:
      "pageLoop fetchFn saveFn d cs ce (page + 1) sc1 st1 = (r2, tr2, sc2, st2)"
      by (metis prod_cases4)
    consider "items = []" | err where "items \<noteq> []" "serr = Some err"
      | "items \<noteq> []" "serr = None" "length items < MAX_RECORDS_PER_CALL"
      | "items \<noteq> []" "serr = None" "\<not> length items < MAX_RECORDS_PER_CALL"
      by (cases serr) auto
    then show ?thesis
    proof cases
      case 1
      with ro Returned assms that(3) show ?thesis
        by (simp add: pageLoop.simps [of _ _ _ _ _ page])
    next
      case 2
      with ro Returned sv assms that(4) [of items tr1 err] show ?thesis
        by (simp add: pageLoop.simps [of _ _ _ _ _ page])
    next
      case 3
      with ro Returned sv assms that(5) [of items tr1] show ?thesis
        by (simp add: pageLoop.simps [of _ _ _ _ _ page])
    next
      case 4
      with ro Returned sv rec lt assms that(6) [of items tr1 sc1 st1 tr2] show ?thesis
        by (simp add: pageLoop.simps [of _ _ _ _ _ page])
    qed
  qed
qed

lemma batchLoop_done:
  "\<not> cs \<le> e \<Longrightarrow> batchLoop fetchFn saveFn d cs e sc st = (Returned (), [], sc, st)"
  by (simp add: batchLoop.simps [of _ _ _ cs])

lemma batchLoop_cases [consumes 2, case_names stalled advance again thrown]:
  assumes "batchLoop fetchFn saveFn d cs e sc st = (r, tr, sc', st')" and "cs \<le> e"
  obtains tr1 where
      "pageLoop fetchFn saveFn d cs (min (cs + BLOCK_RANGE - 1) e) 1 sc st = (Stalled, tr1, sc', st')"
      "r = Stalled" "tr = Window cs (min (cs + BLOCK_RANGE - 1) e) # tr1"
  | r1 tr1 sc1 st1 tr2 where
      "pageLoop fetchFn saveFn d cs (min (cs + BLOCK_RANGE - 1) e) 1 sc st = (r1, tr1, sc1, st1)"
      "skipsWindow r1"
      "batchLoop fetchFn saveFn d (min (cs + BLOCK_RANGE - 1) e + 1) e sc1 st1 = (r, tr2, sc', st')"
      "tr = Window cs (min (cs + BLOCK_RANGE - 1) e) # tr1 @ tr2"
      "length sc1 < length sc"
  | r1 tr1 sc1 st1 tr2 where
      "pageLoop fetchFn saveFn d cs (min (cs + BLOCK_RANGE - 1) e) 1 sc st = (r1, tr1, sc1, st1)"
      "retriesWindow r1"
      "batchLoop fetchFn saveFn d cs e sc1 st1 = (r, tr2, sc', st')"
      "tr = Window cs (min (cs + BLOCK_RANGE - 1) e) # tr1 @ [Delay 5000] @ tr2"
      "length sc1 < length sc"
  | err tr1 where
      "pageLoop fetchFn saveFn d cs (min (cs + BLOCK_RANGE - 1) e) 1 sc st = (Threw err, tr1, sc', st')"
      "\<not> skipsWindow (Threw err)" "\<not> retriesWindow (Threw err)"
      "r = Threw err" "tr = Window cs (min (cs + BLOCK_RANGE - 1) e) # tr1"
proof -
  let ?ce = "min (cs + BLOCK_RANGE - 1) e"
  obtain r1 tr1 sc1 st1 where pl:
    "pageLoop fetchFn saveFn d cs ?ce 1 sc st = (r1, tr1, sc1, st1)"
    by (metis prod_cases4)
  obtain ra tra sca sta where reca:
    "batchLoop fetchFn saveFn d (?ce + 1) e sc1 st1 = (ra, tra, sca, sta)"
    by (metis prod_cases4)
  obtain rb trb scb stb where recb:
    "batchLoop fetchFn saveFn d cs e sc1 st1 = (rb, trb, scb, stb)"
    by (metis prod_cases4)
  show ?thesis
  proof (cases r1)
    case Stalled
    with pl assms that(1) [of tr1] show ?thesis
      by (simp add: batchLoop.simps [of _ _ _ cs] Let_def)
  next
    case (Returned u)
    then have "length sc1 < length sc"
      using pageLoop_consumes [OF pl] by simp
    with Returned pl reca assms that(2) [of r1 tr1 sc1 st1 tra] show ?thesis
      by (simp add: batchLoop.simps [of _ _ _ cs] Let_def skipsWindow_def)
  next
    case (Threw err)
    then have lt: "length sc1 < length sc"
      using pageLoop_consumes [OF pl] by simp
    consider "skipsWindow r1" | "\<not> skipsWindow r1" "retriesWindow r1"
      | "\<not> skipsWindow r1" "\<not> retriesWindow r1"
      by blast
    then show ?thesis
    proof cases
      case 1
      with Threw lt pl reca assms that(2) [of r1 tr1 sc1 st1 tra] show ?thesis
        by (simp add: batchLoop.simps [of _ _ _ cs] Let_def skipsWindow_def)
    next
      case 2
      with Threw lt pl recb assms that(3) [of r1 tr1 sc1 st1 trb] show ?thesis
        by (simp add: batchLoop.simps [of _ _ _ cs] Let_def skipsWindow_def retriesWindow_def)
    next
      case 3
      with Threw lt pl assms that(4) [of err tr1] show ?thesis
        by (auto simp: batchLoop.simps [of _ _ _ cs] Let_def skipsWindow_def retriesWindow_def
            split: if_splits)
    qed
  qed
qed

lemma windowsOf_append [simp]: "windowsOf (xs @ ys) = windowsOf xs @ windowsOf ys"
  by (induction xs rule: windowsOf.induct) simp_all

lemma fetchesOf_append [simp]: "fetchesOf (xs @ ys) = fetchesOf xs @ fetchesOf ys"
  by (induction xs rule: fetchesOf.induct) simp_all

lemma savesOf_append [simp]: "savesOf (xs @ ys) = savesOf xs @ savesOf ys"
  by (induction xs rule: savesOf.induct) simp_all
















section \<open>Claims about the window loop\<close>




section \<open>Claims about retryOperation\<close>

lemma shouldRetry_retryable: "shouldRetry attempt err = (attempt \<noteq> MAX_RETRIES \<and> retryable err)"
  by (simp add: shouldRetry_def retryable_def)


lemma retryOperation_Threw_last:
  "attempt \<le> MAX_RETRIES \<Longrightarrow> \<not> shouldRetry attempt err \<Longrightarrow>
     retryOperation (callProvider m s e p) d attempt (Threw err # rs)
       = (Threw err, [Fetch m s e p], rs)"
  by (simp add: retryOperation.simps [of _ _ attempt])

lemma retryOperation_Threw_retry:
  "attempt \<le> MAX_RETRIES \<Longrightarrow> shouldRetry attempt err \<Longrightarrow>
     retryOperation (callProvider m s e p) d attempt (Threw err # rs)
       = (case retryOperation (callProvider m s e p) d (attempt + 1) rs of
            (r, tr2, sc2) \<Rightarrow> (r, Fetch m s e p # Delay (RETRY_DELAY * attempt) # tr2, sc2))"
  by (simp add: retryOperation.simps [of _ _ attempt])

lemma retryOperation_throws_operation_error:
  "retryOperation (callProvider m s e p) d attempt sc = (Threw err, tr, sc')
     \<Longrightarrow> attempt \<le> MAX_RETRIES \<Longrightarrow> Threw err \<in> set sc"
proof (induction sc arbitrary: attempt tr sc')
  case Nil
  then show ?case by (cases rule: retryOperation_cases) simp_all
next
  case (Cons x rs)
  from Cons.prems show ?case
  proof (cases rule: retryOperation_cases)
    case (retry err' rs' tr2)
    with Cons.IH [of "attempt + 1" tr2 sc'] show ?thesis by simp
  qed simp_all
qed

text \<open>
  Claim C3, as amended. When the operation fails on each of its invocations and the first
  two errors are of the retried kind, \<open>retryOperation\<close> invokes it exactly three times,
  sleeping 10000 ms and 20000 ms in between, and then throws the third error of the
  operation itself, unchanged. No error of its own is ever thrown: whatever
  \<open>retryOperation\<close> throws was thrown by the operation. An error that is not of the
  retried kind is thrown again after the first invocation. (The claim as stated fails: no
  distinct \<open>Failed after 3 attempts\<close> error is raised, and an \<open>EtherscanError\<close> for a
  connection reset is not retried at all.)
\<close>

theorem retry_exhaustion_rethrows_last_error:
  "(retryable e1 \<and> retryable e2 \<longrightarrow>
      retryOperation (callProvider m s e p) d 1 (Threw e1 # Threw e2 # Threw e3 # rest)
        = (Threw e3,
           [Fetch m s e p, Delay 10000, Fetch m s e p, Delay 20000, Fetch m s e p], rest))
   \<and> (retryOperation (callProvider m s e p) d 1 sc = (Threw err, tr, sc')
        \<longrightarrow> Threw err \<in> set sc)
   \<and> (\<not> retryable e0 \<longrightarrow>
        retryOperation (callProvider m s e p) d 1 (Threw e0 # rest0)
          = (Threw e0, [Fetch m s e p], rest0))"
proof (intro conjI impI)
  assume "\<not> retryable e0"
  then show "retryOperation (callProvider m s e p) d 1 (Threw e0 # rest0)
          = (Threw e0, [Fetch m s e p], rest0)"
    by (simp add: retryOperation_Threw_last shouldRetry_retryable MAX_RETRIES_def)
next
  assume "retryable e1 \<and> retryable e2"
  then have sr: "shouldRetry 1 e1" "shouldRetry 2 e2" "\<not> shouldRetry 3 e3"
    by (simp_all add: shouldRetry_retryable MAX_RETRIES_def)
  have "retryOperation (callProvider m s e p) d 3 (Threw e3 # rest)
          = (Threw e3, [Fetch m s e p], rest)"
    using sr(3) by (simp add: retryOperation_Threw_last MAX_RETRIES_def)
  then have "retryOperation (callProvider m s e p) d 2 (Threw e2 # Threw e3 # rest)
          = (Threw e3, [Fetch m s e p, Delay 20000, Fetch m s e p], rest)"
    using sr(2) retryOperation_Threw_retry [of 2 e2 m s e p d "Threw e3 # rest"]
    by (simp add: MAX_RETRIES_def RETRY_DELAY_def numeral_2_eq_2 numeral_3_eq_3)
  then show "retryOperation (callProvider m s e p) d 1 (Threw e1 # Threw e2 # Threw e3 # rest)
        = (Threw e3,
           [Fetch m s e p, Delay 10000, Fetch m s e p, Delay 20000, Fetch m s e p], rest)"
    using sr(1) retryOperation_Threw_retry [of 1 e1 m s e p d "Threw e2 # Threw e3 # rest"]
    by (simp add: MAX_RETRIES_def RETRY_DELAY_def numeral_2_eq_2)
next
  assume "retryOperation (callProvider m s e p) d 1 sc = (Threw err, tr, sc')"
  then show "Threw err \<in> set sc"
    by (rule retryOperation_throws_operation_error) (simp add: MAX_RETRIES_def)
qed

theorem retry_exhaustion_rethrows_last_error_witness:
  "retryable (GenericError ''socket hang up'')
   \<and> retryable (EtherscanError ''Network error: timeout of 60000ms exceeded'')
   \<and> retryOperation (callProvider GetTransactions 0 49999 1) ''Fetching normal transactions'' 1
        [Threw (GenericError ''socket hang up''),
         Threw (EtherscanError ''Network error: timeout of 60000ms exceeded''),
         Threw (GenericError ''read ECONNRESET'')]
      = (Threw (GenericError ''read ECONNRESET''),
         [Fetch GetTransactions 0 49999 1, Delay 10000, Fetch GetTransactions 0 49999 1,
          Delay 20000, Fetch GetTransactions 0 49999 1], [])
   \<and> (Threw (GenericError ''read ECONNRESET'') :: Item list outcome)
        \<in> set [Threw (GenericError ''socket hang up''),
                Threw (EtherscanError ''Network error: timeout of 60000ms exceeded''),
                Threw (GenericError ''read ECONNRESET'')]
   \<and> \<not> retryable (EtherscanError ''Network error: read ECONNRESET'')
   \<and> retryOperation (callProvider GetTransactions 0 49999 1) ''Fetching normal transactions'' 1
        (Threw (EtherscanError ''Network error: read ECONNRESET'') # [Returned []])
      = (Threw (EtherscanError ''Network error: read ECONNRESET''),
         [Fetch GetTransactions 0 49999 1], [Returned []])"
proof -
  have nr: "\<not> retryable (EtherscanError ''Network error: read ECONNRESET'')"
    by (simp add: retryable_def)
  note once = retry_exhaustion_rethrows_last_error
    [where ?e0.0 = "EtherscanError ''Network error: read ECONNRESET''" and m = GetTransactions
      and s = 0 and e = 49999 and p = 1 and d = "''Fetching normal transactions''"
      and ?rest0.0 = "[Returned []]", THEN conjunct2, THEN conjunct2, THEN mp, OF nr]
  have r: "retryable (GenericError ''socket hang up'')
    \<and> retryable (EtherscanError ''Network error: timeout of 60000ms exceeded'')"
    by (simp add: retryable_def)
  note inst = retry_exhaustion_rethrows_last_error [of "GenericError ''socket hang up''"
      "EtherscanError ''Network error: timeout of 60000ms exceeded''" GetTransactions 0 49999 1
      "''Fetching normal transactions''" "GenericError ''read ECONNRESET''" "[]"
      "[Threw (GenericError ''socket hang up''),
        Threw (EtherscanError ''Network error: timeout of 60000ms exceeded''),
        Threw (GenericError ''read ECONNRESET'')]" "GenericError ''read ECONNRESET''"
      "[Fetch GetTransactions 0 49999 1, Delay 10000, Fetch GetTransactions 0 49999 1,
          Delay 20000, Fetch GetTransactions 0 49999 1]" "[]"]
  from inst [THEN conjunct1, THEN mp, OF r]
  have run: "retryOperation (callProvider GetTransactions 0 49999 1)
        ''Fetching normal transactions'' 1
        [Threw (GenericError ''socket hang up''),
         Threw (EtherscanError ''Network error: timeout of 60000ms exceeded''),
         Threw (GenericError ''read ECONNRESET'')]
      = (Threw (GenericError ''read ECONNRESET''),
         [Fetch GetTransactions 0 49999 1, Delay 10000, Fetch GetTransactions 0 49999 1,
          Delay 20000, Fetch GetTransactions 0 49999 1], [])" .
  note mem = inst [THEN conjunct2, THEN conjunct1, THEN mp, OF run]
  show ?thesis
    by (intro conjI) (rule r [THEN conjunct1] r [THEN conjunct2] run mem nr once)+
qed

theorem retry_exhaustion_counterexample:
  "retryOperation (callProvider GetTransactions 0 49999 1) ''Fetching normal transactions'' 1
     [Threw (GenericError ''socket hang up''), Threw (GenericError ''socket hang up''),
      Threw (GenericError ''socket hang up'')]
   = (Threw (GenericError ''socket hang up''),
      [Fetch GetTransactions 0 49999 1, Delay 10000, Fetch GetTransactions 0 49999 1,
       Delay 20000, Fetch GetTransactions 0 49999 1], [])
   \<and> \<not> str_includes (message (GenericError ''socket hang up'')) ''Failed after''
   \<and> retryOperation (callProvider GetTransactions 0 49999 1) ''Fetching normal transactions'' 1
     [Threw (EtherscanError ''Network error: read ECONNRESET''),
      Threw (EtherscanError ''Network error: read ECONNRESET''),
      Threw (EtherscanError ''Network error: read ECONNRESET'')]
   = (Threw (EtherscanError ''Network error: read ECONNRESET''),
      [Fetch GetTransactions 0 49999 1],
      [Threw (EtherscanError ''Network error: read ECONNRESET''),
       Threw (EtherscanError ''Network error: read ECONNRESET'')])"
  by (simp add: retryOperation.simps shouldRetry_def MAX_RETRIES_def RETRY_DELAY_def)

text \<open>
  Claim C7, as amended. The delay before the next attempt is linear in the attempt counter,
  \<open>RETRY_DELAY * attempt\<close>: 10000 ms after the first failure and 20000 ms after the
  second. An \<open>EtherscanError\<close> with \<open>Max rate limit reached\<close> that leaves the page loop
  is followed by a fixed wait of 5000 ms, which is shorter, after which the same window is
  started again. (The claim as stated fails: 10000 is not \<open>RETRY_DELAY * 2 ^ 1\<close>, and
  the fixed wait is not the longer one.)
\<close>

theorem retry_delay_linear:
  "(attempt \<le> MAX_RETRIES \<and> shouldRetry attempt err \<longrightarrow>
      (\<exists>r tr2 sc'.
         retryOperation (callProvider m s e p) d attempt (Threw err # rs)
           = (r, Fetch m s e p # Delay (10000 * attempt) # tr2, sc')
         \<and> retryOperation (callProvider m s e p) d (attempt + 1) rs = (r, tr2, sc')))
   \<and> (cs \<le> en \<and> retriesWindow (Threw err2)
        \<and> pageLoop fetchFn saveFn d cs (min (cs + BLOCK_RANGE - 1) en) 1 sc st
              = (Threw err2, tr1, sc1, st1) \<longrightarrow>
      (\<exists>r tr2 sc' st'.
         batchLoop fetchFn saveFn d cs en sc st
           = (r, Window cs (min (cs + BLOCK_RANGE - 1) en) # tr1 @ Delay 5000 # tr2, sc', st')
         \<and> batchLoop fetchFn saveFn d cs en sc1 st1 = (r, tr2, sc', st')))"
proof (intro conjI impI)
  assume a: "attempt \<le> MAX_RETRIES \<and> shouldRetry attempt err"
  obtain r tr2 sc' where rec:
    "retryOperation (callProvider m s e p) d (attempt + 1) rs = (r, tr2, sc')"
    by (metis prod_cases3)
  with a have "retryOperation (callProvider m s e p) d attempt (Threw err # rs)
           = (r, Fetch m s e p # Delay (10000 * attempt) # tr2, sc')"
    by (simp add: retryOperation_Threw_retry RETRY_DELAY_def)
  with rec show "\<exists>r tr2 sc'.
         retryOperation (callProvider m s e p) d attempt (Threw err # rs)
           = (r, Fetch m s e p # Delay (10000 * attempt) # tr2, sc')
         \<and> retryOperation (callProvider m s e p) d (attempt + 1) rs = (r, tr2, sc')"
    by blast
next
  assume a: "cs \<le> en \<and> retriesWindow (Threw err2)
        \<and> pageLoop fetchFn saveFn d cs (min (cs + BLOCK_RANGE - 1) en) 1 sc st
              = (Threw err2, tr1, sc1, st1)"
  obtain r tr2 sc' st' where rec:
    "batchLoop fetchFn saveFn d cs en sc1 st1 = (r, tr2, sc', st')"
    by (metis prod_cases4)
  with a have "batchLoop fetchFn saveFn d cs en sc st
           = (r, Window cs (min (cs + BLOCK_RANGE - 1) en) # tr1 @ Delay 5000 # tr2, sc', st')"
    by (simp add: batchLoop.simps [of _ _ _ cs en sc] retriesWindow_def Let_def)
  with rec show "\<exists>r tr2 sc' st'.
         batchLoop fetchFn saveFn d cs en sc st
           = (r, Window cs (min (cs + BLOCK_RANGE - 1) en) # tr1 @ Delay 5000 # tr2, sc', st')
         \<and> batchLoop fetchFn saveFn d cs en sc1 st1 = (r, tr2, sc', st')"
    by blast
qed

theorem retry_delay_linear_witness:
  "(1 \<le> MAX_RETRIES \<and> shouldRetry 1 (EtherscanError ''Network error: timeout of 60000ms exceeded''))
   \<and> (\<exists>r tr2 sc'.
         retryOperation (callProvider GetTransactions 0 10 1) ''Fetching normal transactions'' 1
           [Threw (EtherscanError ''Network error: timeout of 60000ms exceeded''), Returned []]
           = (r, Fetch GetTransactions 0 10 1 # Delay (10000 * 1) # tr2, sc')
         \<and> retryOperation (callProvider GetTransactions 0 10 1) ''Fetching normal transactions''
             (1 + 1) [Returned []] = (r, tr2, sc'))
   \<and> (\<exists>r tr2 sc' st'.
         batchLoop GetTransactions (\<lambda>items st. (None, st)) ''normal transactions'' 0 10
           [Threw (EtherscanError ''Max rate limit reached''),
            Threw (EtherscanError ''Max rate limit reached''),
            Threw (EtherscanError ''Max rate limit reached''), Returned []] ()
           = (r, Window 0 (min (0 + BLOCK_RANGE - 1) 10)
                   # [Fetch GetTransactions 0 10 1, Delay 10000, Fetch GetTransactions 0 10 1,
                      Delay 20000, Fetch GetTransactions 0 10 1] @ Delay 5000 # tr2, sc', st')
         \<and> batchLoop GetTransactions (\<lambda>items st. (None, st)) ''normal transactions'' 0 10
             [Returned []] () = (r, tr2, sc', st'))"
proof -
  let ?save = "(\<lambda>items st. (None, st)) :: Item list \<Rightarrow> unit \<Rightarrow> error option \<times> unit"
  let ?rl = "EtherscanError ''Max rate limit reached''"
  let ?to = "EtherscanError ''Network error: timeout of 60000ms exceeded''"
  have h1: "1 \<le> MAX_RETRIES \<and> shouldRetry 1 ?to"
    by (simp add: shouldRetry_def MAX_RETRIES_def)
  have h2: "(0::int) \<le> 10 \<and> retriesWindow (Threw ?rl)
     \<and> pageLoop GetTransactions ?save ''normal transactions'' 0 (min (0 + BLOCK_RANGE - 1) 10) 1
          [Threw ?rl, Threw ?rl, Threw ?rl, Returned []] ()
        = (Threw ?rl,
           [Fetch GetTransactions 0 10 1, Delay 10000, Fetch GetTransactions 0 10 1,
            Delay 20000, Fetch GetTransactions 0 10 1], [Returned []], ())"
    by (simp add: retriesWindow_def pageLoop.simps retryOperation.simps shouldRetry_def
        MAX_RETRIES_def RETRY_DELAY_def BLOCK_RANGE_def)
  note c1 = retry_delay_linear [of 1 ?to GetTransactions 0 10 1 "''Fetching normal transactions''"
      "[Returned []]", THEN conjunct1, THEN mp, OF h1]
  note c2 = retry_delay_linear [where cs = 0 and en = 10 and ?err2.0 = ?rl
      and fetchFn = GetTransactions and saveFn = ?save and d = "''normal transactions''"
      and sc = "[Threw ?rl, Threw ?rl, Threw ?rl, Returned []]" and st = "()"
      and ?tr1.0 = "[Fetch GetTransactions 0 10 1, Delay 10000, Fetch GetTransactions 0 10 1,
        Delay 20000, Fetch GetTransactions 0 10 1]" and ?sc1.0 = "[Returned []]" and ?st1.0 = "()",
      THEN conjunct2, THEN mp, OF h2]
  show ?thesis
    by (intro conjI) (rule h1 [THEN conjunct1] h1 [THEN conjunct2] c1 c2)+
qed

theorem retry_delay_counterexample:
  "retryOperation (callProvider GetTransactions 0 10 1) ''Fetching normal transactions'' 1
     [Threw (EtherscanError ''Network error: timeout of 60000ms exceeded''), Returned []]
   = (Returned [], [Fetch GetTransactions 0 10 1, Delay 10000, Fetch GetTransactions 0 10 1], [])
   \<and> (10000::nat) \<noteq> RETRY_DELAY * 2 ^ 1
   \<and> batchLoop GetTransactions (\<lambda>items st. (None, st)) ''normal transactions'' 0 10
     [Threw (EtherscanError ''Max rate limit reached''),
      Threw (EtherscanError ''Max rate limit reached''),
      Threw (EtherscanError ''Max rate limit reached''), Returned []] ()
   = (Returned (),
      [Window 0 10, Fetch GetTransactions 0 10 1, Delay 10000, Fetch GetTransactions 0 10 1,
       Delay 20000, Fetch GetTransactions 0 10 1, Delay 5000,
       Window 0 10, Fetch GetTransactions 0 10 1], [], ())
   \<and> (5000::nat) < 10000"
  by (simp add: batchLoop.simps pageLoop.simps retryOperation.simps shouldRetry_def
      MAX_RETRIES_def RETRY_DELAY_def BLOCK_RANGE_def)

section \<open>Facts about the storage\<close>




lemma csvOf_appendCsv [simp]: "csvOf type (appendCsv type records fs) = csvOf type fs @ records"
  by (cases type) (simp_all add: csvOf_def appendCsv_def)

lemma csvOf_writeState [simp]: "csvOf type (writeState state fs) = csvOf type fs"
  by (cases type) (simp_all add: csvOf_def writeState_def)

lemma csvOf_updateTransactionState [simp]:
  "csvOf type (updateTransactionState type' lb n fs) = csvOf type fs"
  by (simp add: updateTransactionState_def initializeState_def Let_def split: option.splits)



section \<open>Claims about the storage\<close>





lemma storedStateOk_faults [simp]: "storedStateOk (fs\<lparr>faults := x\<rparr>) = storedStateOk fs"
  by (simp add: storedStateOk_def)


lemma storedStateOk_appendCsv [simp]: "storedStateOk (appendCsv type rs fs) = storedStateOk fs"
  by (cases type) (simp_all add: storedStateOk_def appendCsv_def)

lemma storedStateOk_tokenCsv [simp]:
  "storedStateOk (fs\<lparr>tokenTransfersCsv := x\<rparr>) = storedStateOk fs"
  by (simp add: storedStateOk_def)














section \<open>Claims about the cursor\<close>

lemma savesOf_retryOperation:
  "retryOperation (callProvider m s e p) d attempt sc = (r, tr, sc') \<Longrightarrow> attempt \<le> MAX_RETRIES
     \<Longrightarrow> savesOf tr = []"
proof (induction sc arbitrary: attempt r tr sc')
  case Nil
  then show ?case by (cases rule: retryOperation_cases) simp_all
next
  case (Cons x rs)
  from Cons.prems show ?case
  proof (cases rule: retryOperation_cases)
    case (retry err rs' tr2)
    with Cons.IH [of "attempt + 1" r tr2 sc'] show ?thesis by simp
  qed simp_all
qed

lemma savesOf_retryOperation1:
  "retryOperation (callProvider m s e p) d (Suc 0) sc = (r, tr, sc') \<Longrightarrow> savesOf tr = []"
  by (erule savesOf_retryOperation) (simp add: MAX_RETRIES_def)

lemma maxBlockNumber_sort_key [simp]:
  "maxBlockNumber (sort_key blockNumber transactions) = maxBlockNumber transactions"
  by (simp add: maxBlockNumber_def)

lemma cursorOf_updateTransactionState:
  "cursorOf type (updateTransactionState type lb n fs) = max (cursorOf type fs) lb"
  by (cases type)
    (auto simp: cursorOf_def updateTransactionState_def initializeState_def writeState_def
      initialState_def getCursor_def setCursor_def Let_def split: option.splits)

lemma cursorOf_appendCsv [simp]: "cursorOf type (appendCsv type' rs fs) = cursorOf type fs"
  by (cases type') (simp_all add: cursorOf_def appendCsv_def)

lemma faults_appendCsv [simp]: "faults (appendCsv type rs fs) = faults fs"
  by (cases type) (simp_all add: appendCsv_def)

lemma faults_updateTransactionState [simp]:
  "faults (updateTransactionState type lb n fs) = faults fs"
  by (simp add: updateTransactionState_def initializeState_def writeState_def Let_def
      split: option.splits)

lemma saveTransactions_no_fault:
  assumes "faults fs = []" and "items \<noteq> []"
  shows "\<exists>fs'. saveTransactions type items fs = (None, fs') \<and> faults fs' = []
           \<and> cursorOf type fs' = raiseCursor items (cursorOf type fs)"
  using assms
  by (simp add: saveTransactions_def nextFault_def Let_def cursorOf_updateTransactionState
      raiseCursor_def)

lemma cursor_pageLoop:
  "pageLoop fetchFn (saveTransactions type) d cs ce page sc fs = (r, tr, sc', fs')
     \<Longrightarrow> faults fs = []
     \<Longrightarrow> faults fs' = [] \<and> cursorOf type fs' = fold raiseCursor (savesOf tr) (cursorOf type fs)"
proof (induction "length sc" arbitrary: page sc fs r tr sc' fs' rule: less_induct)
  case less
  from less.prems(1) show ?case
  proof (cases rule: pageLoop_cases)
    case (saveFailed items tr1 err)
    with saveTransactions_no_fault [OF less.prems(2), of items type] show ?thesis by auto
  next
    case (short items tr1)
    with saveTransactions_no_fault [OF less.prems(2), of items type]
      savesOf_retryOperation1 [of fetchFn cs ce page d sc "Returned items" tr1 sc']
    show ?thesis by auto
  next
    case (full items tr1 sc1 fs1 tr2)
    with saveTransactions_no_fault [OF less.prems(2), of items type]
    have f1: "faults fs1 = []" and c1: "cursorOf type fs1 = raiseCursor items (cursorOf type fs)"
      by auto
    from less.hyps [OF full(7) full(5) f1] c1 full(6)
      savesOf_retryOperation1 [of fetchFn cs ce page d sc "Returned items" tr1 sc1] full(1)
    show ?thesis by simp
  qed (use less.prems(2) savesOf_retryOperation1 in auto)
qed

lemma savesOf_Window_Cons [simp]: "savesOf (Window a b # tr) = savesOf tr"
  by simp

lemma cursor_batchLoop:
  "batchLoop fetchFn (saveTransactions type) d cs e sc fs = (r, tr, sc', fs')
     \<Longrightarrow> faults fs = []
     \<Longrightarrow> faults fs' = [] \<and> cursorOf type fs' = fold raiseCursor (savesOf tr) (cursorOf type fs)"
proof (induction "length sc" arbitrary: cs sc fs r tr sc' fs' rule: less_induct)
  case less
  show ?case
  proof (cases "cs \<le> e")
    case False
    with less.prems show ?thesis by (simp add: batchLoop_done)
  next
    case True
    from less.prems(1) True show ?thesis
    proof (cases rule: batchLoop_cases)
      case (stalled tr1)
      with cursor_pageLoop [OF stalled(1) less.prems(2)] show ?thesis by simp
    next
      case (advance r1 tr1 sc1 fs1 tr2)
      from cursor_pageLoop [OF advance(1) less.prems(2)]
      have p: "faults fs1 = []"
        "cursorOf type fs1 = fold raiseCursor (savesOf tr1) (cursorOf type fs)"
        by simp_all
      from less.hyps [OF advance(5) advance(3) p(1)] p(2) advance(4) show ?thesis by simp
    next
      case (again r1 tr1 sc1 fs1 tr2)
      from cursor_pageLoop [OF again(1) less.prems(2)]
      have p: "faults fs1 = []"
        "cursorOf type fs1 = fold raiseCursor (savesOf tr1) (cursorOf type fs)"
        by simp_all
      from less.hyps [OF again(5) again(3) p(1)] p(2) again(4) show ?thesis by simp
    next
      case (thrown err tr1)
      with cursor_pageLoop [OF thrown(1) less.prems(2)] show ?thesis by simp
    qed
  qed
qed

lemma fold_raiseCursor_ge: "c \<le> fold raiseCursor xs c"
proof (induction xs arbitrary: c)
  case Nil
  show ?case by simp
next
  case (Cons x xs)
  have "c \<le> raiseCursor x c" by (simp add: raiseCursor_def)
  also have "\<dots> \<le> fold raiseCursor xs (raiseCursor x c)" by (rule Cons.IH)
  finally show ?case by simp
qed

lemma fold_raiseCursor_mono: "c \<le> c' \<Longrightarrow> fold raiseCursor xs c \<le> fold raiseCursor xs c'"
proof (induction xs arbitrary: c c')
  case Nil
  then show ?case by simp
next
  case (Cons x xs)
  from Cons.prems have "raiseCursor x c \<le> raiseCursor x c'" by (simp add: raiseCursor_def)
  then show ?case using Cons.IH by simp
qed

lemma cursorOf_nextFault [simp]: "cursorOf type (snd (nextFault fs)) = cursorOf type fs"
  by (simp add: cursorOf_def nextFault_def split: list.splits)

lemma saveTransactions_cursor:
  assumes "saveTransactions type items fs = (res, fs')"
  shows "cursorOf type fs \<le> cursorOf type fs' \<and> cursorOf type fs' \<le> raiseCursor items (cursorOf type fs)"
proof (cases "items = []")
  case True
  with assms show ?thesis by (simp add: saveTransactions_def raiseCursor_def)
next
  case False
  obtain fault fs1 where nf: "nextFault fs = (fault, fs1)" by (metis surj_pair)
  then have c1: "cursorOf type fs1 = cursorOf type fs"
    using cursorOf_nextFault [of type fs] by simp
  from False nf c1 assms show ?thesis
    by (cases fault)
      (auto simp: saveTransactions_def Let_def cursorOf_updateTransactionState raiseCursor_def)
qed

lemma cursor_bounds_pageLoop:
  "pageLoop fetchFn (saveTransactions type) d cs ce page sc fs = (r, tr, sc', fs')
     \<Longrightarrow> cursorOf type fs \<le> cursorOf type fs'
         \<and> cursorOf type fs' \<le> fold raiseCursor (savesOf tr) (cursorOf type fs)"
proof (induction "length sc" arbitrary: page sc fs r tr sc' fs' rule: less_induct)
  case less
  from less.prems(1) show ?case
  proof (cases rule: pageLoop_cases)
    case (saveFailed items tr1 err)
    with saveTransactions_cursor [OF saveFailed(3)]
      savesOf_retryOperation1 [of fetchFn cs ce page d sc "Returned items" tr1 sc']
    show ?thesis by auto
  next
    case (short items tr1)
    with saveTransactions_cursor [OF short(3)]
      savesOf_retryOperation1 [of fetchFn cs ce page d sc "Returned items" tr1 sc']
    show ?thesis by auto
  next
    case (full items tr1 sc1 fs1 tr2)
    note s1 = saveTransactions_cursor [OF full(3)]
    note ih = less.hyps [OF full(7) full(5)]
    have sv: "savesOf tr = items # savesOf tr2"
      using full(6) savesOf_retryOperation1 [of fetchFn cs ce page d sc "Returned items" tr1 sc1]
        full(1) by simp
    have "cursorOf type fs' \<le> fold raiseCursor (savesOf tr2) (cursorOf type fs1)"
      using ih by simp
    also have "\<dots> \<le> fold raiseCursor (savesOf tr2) (raiseCursor items (cursorOf type fs))"
      using s1 by (intro fold_raiseCursor_mono) simp
    finally have "cursorOf type fs' \<le> fold raiseCursor (savesOf tr) (cursorOf type fs)"
      using sv by simp
    moreover have "cursorOf type fs \<le> cursorOf type fs'"
      using s1 ih by linarith
    ultimately show ?thesis by simp
  qed (use savesOf_retryOperation1 in auto)
qed

lemma cursor_bounds_batchLoop:
  "batchLoop fetchFn (saveTransactions type) d cs e sc fs = (r, tr, sc', fs')
     \<Longrightarrow> cursorOf type fs \<le> cursorOf type fs'
         \<and> cursorOf type fs' \<le> fold raiseCursor (savesOf tr) (cursorOf type fs)"
proof (induction "length sc" arbitrary: cs sc fs r tr sc' fs' rule: less_induct)
  case less
  show ?case
  proof (cases "cs \<le> e")
    case False
    with less.prems show ?thesis by (simp add: batchLoop_done)
  next
    case True
    have step: "cursorOf type fs \<le> cursorOf type fs'
         \<and> cursorOf type fs' \<le> fold raiseCursor (savesOf tr1 @ savesOf tr2) (cursorOf type fs)"
      if p: "pageLoop fetchFn (saveTransactions type) d cs (min (cs + BLOCK_RANGE - 1) e) 1 sc fs
               = (r1, tr1, sc1, fs1)"
        and lt: "length sc1 < length sc"
        and rec: "batchLoop fetchFn (saveTransactions type) d cs2 e sc1 fs1 = (r, tr2, sc', fs')"
      for r1 tr1 sc1 fs1 tr2 cs2
    proof -
      note b1 = cursor_bounds_pageLoop [OF p]
      note ih = less.hyps [OF lt rec]
      have "cursorOf type fs' \<le> fold raiseCursor (savesOf tr2) (cursorOf type fs1)"
        using ih by simp
      also have "\<dots> \<le> fold raiseCursor (savesOf tr2)
                         (fold raiseCursor (savesOf tr1) (cursorOf type fs))"
        using b1 by (intro fold_raiseCursor_mono) simp
      finally have "cursorOf type fs'
          \<le> fold raiseCursor (savesOf tr1 @ savesOf tr2) (cursorOf type fs)"
        by simp
      moreover have "cursorOf type fs \<le> cursorOf type fs'"
        using b1 ih by linarith
      ultimately show ?thesis by simp
    qed
    from less.prems(1) True show ?thesis
    proof (cases rule: batchLoop_cases)
      case (stalled tr1)
      with cursor_bounds_pageLoop [OF stalled(1)] show ?thesis by simp
    next
      case (advance r1 tr1 sc1 fs1 tr2)
      from step [OF advance(1) advance(5) advance(3)] advance(4) show ?thesis by simp
    next
      case (again r1 tr1 sc1 fs1 tr2)
      from step [OF again(1) again(5) again(3)] again(4) show ?thesis by simp
    next
      case (thrown err tr1)
      with cursor_bounds_pageLoop [OF thrown(1)] show ?thesis by simp
    qed
  qed
qed

lemma pageLoop_no_save:
  "pageLoop fetchFn saveFn d cs ce page sc st = (r, tr, sc', st') \<Longrightarrow> savesOf tr = []
     \<Longrightarrow> st' = st"
  by (cases rule: pageLoop_cases) auto

lemma batchLoop_no_save:
  "batchLoop fetchFn saveFn d cs e sc st = (r, tr, sc', st') \<Longrightarrow> savesOf tr = []
     \<Longrightarrow> st' = st"
proof (induction "length sc" arbitrary: cs sc st r tr sc' st' rule: less_induct)
  case less
  show ?case
  proof (cases "cs \<le> e")
    case False
    with less.prems show ?thesis by (simp add: batchLoop_done)
  next
    case True
    from less.prems(1) True show ?thesis
    proof (cases rule: batchLoop_cases)
      case (stalled tr1)
      with pageLoop_no_save [OF stalled(1)] less.prems(2) show ?thesis by simp
    next
      case (advance r1 tr1 sc1 st1 tr2)
      with less.prems(2) have e: "savesOf tr1 = []" "savesOf tr2 = []" by simp_all
      from pageLoop_no_save [OF advance(1) e(1)] less.hyps [OF advance(5) advance(3) e(2)]
      show ?thesis by simp
    next
      case (again r1 tr1 sc1 st1 tr2)
      with less.prems(2) have e: "savesOf tr1 = []" "savesOf tr2 = []" by simp_all
      from pageLoop_no_save [OF again(1) e(1)] less.hyps [OF again(5) again(3) e(2)]
      show ?thesis by simp
    next
      case (thrown err tr1)
      with pageLoop_no_save [OF thrown(1)] less.prems(2) show ?thesis by simp
    qed
  qed
qed

text \<open>
  Claim C2, as amended. The window loop never writes the cursor itself; the cursor of a
  type is what the calls of \<open>saveTransactions\<close> make it, and each successful call raises
  it to the highest block number of the page it saved, if that is higher. So after any run
  of \<open>processBatchWithType\<close>, returning, throwing or cut short, the cursor lies between
  its old value and the value all the saved pages together would give; with a storage that
  does not fail it is exactly that value; and a run that saves nothing leaves the storage
  as it was. (The claim as stated fails: after a window is drained the cursor is at the
  highest saved block, not at the window's end, and after a failure partway it is at the
  highest block of the pages saved so far, not where it was before the window.)
\<close>

theorem cursor_follows_saved_pages:
  "processBatchWithType fetchFn (saveTransactions type) startB endB d sc fs = (r, tr, sc', fs')
   \<longrightarrow> cursorOf type fs \<le> cursorOf type fs'
       \<and> cursorOf type fs' \<le> fold raiseCursor (savesOf tr) (cursorOf type fs)
       \<and> (faults fs = [] \<longrightarrow> cursorOf type fs' = fold raiseCursor (savesOf tr) (cursorOf type fs))
       \<and> (savesOf tr = [] \<longrightarrow> fs' = fs)"
proof
  assume "processBatchWithType fetchFn (saveTransactions type) startB endB d sc fs
            = (r, tr, sc', fs')"
  then have run: "batchLoop fetchFn (saveTransactions type) d startB endB sc fs = (r, tr, sc', fs')"
    by (simp add: processBatchWithType_def)
  from cursor_bounds_batchLoop [OF run] cursor_batchLoop [OF run] batchLoop_no_save [OF run]
  show "cursorOf type fs \<le> cursorOf type fs'
       \<and> cursorOf type fs' \<le> fold raiseCursor (savesOf tr) (cursorOf type fs)
       \<and> (faults fs = [] \<longrightarrow> cursorOf type fs' = fold raiseCursor (savesOf tr) (cursorOf type fs))
       \<and> (savesOf tr = [] \<longrightarrow> fs' = fs)"
    by blast
qed

lemmas run_simps =
  processBatchWithType_def batchLoop.simps pageLoop.simps retryOperation.simps shouldRetry_def
  MAX_RETRIES_def RETRY_DELAY_def BLOCK_RANGE_def MAX_RECORDS_PER_CALL_def DELAY_BETWEEN_CALLS_def
  Let_def

lemmas storage_simps =
  saveTransactions_def saveTokenTransfers_def saveOrganization_def newFileSystemStorage_def
  nextFault_def writeBatches.simps maxBlockNumber_def updateTransactionState_def
  updateTokenTransferState_def initializeState_def writeState_def initialState_def appendCsv_def
  getCursor_def setCursor_def cursorOf_def

theorem cursor_window_counterexample:
  "fst (processBatchWithType GetTransactions (saveTransactions Normal) 0 49999 ''normal transactions''
          [Returned (replicate 100 \<lparr>hash = ''0xa'', blockNumber = 7\<rparr>),
           Threw (EtherscanError ''Unexpected token'')]
          (saveOrganization (newFileSystemStorage None [])))
     = Threw (EtherscanError ''Unexpected token'')
   \<and> cursorOf Normal (saveOrganization (newFileSystemStorage None [])) = 0
   \<and> cursorOf Normal (snd (snd (snd
        (processBatchWithType GetTransactions (saveTransactions Normal) 0 49999 ''normal transactions''
          [Returned (replicate 100 \<lparr>hash = ''0xa'', blockNumber = 7\<rparr>),
           Threw (EtherscanError ''Unexpected token'')]
          (saveOrganization (newFileSystemStorage None [])))))) = 7
   \<and> fst (processBatchWithType GetTransactions (saveTransactions Normal) 0 49999 ''normal transactions''
          [Returned [\<lparr>hash = ''0xa'', blockNumber = 7\<rparr>]]
          (saveOrganization (newFileSystemStorage None [])))
     = Returned ()
   \<and> cursorOf Normal (snd (snd (snd
        (processBatchWithType GetTransactions (saveTransactions Normal) 0 49999 ''normal transactions''
          [Returned [\<lparr>hash = ''0xa'', blockNumber = 7\<rparr>]]
          (saveOrganization (newFileSystemStorage None [])))))) = 7"
  by (simp add: run_simps storage_simps)

theorem cursor_follows_saved_pages_witness:
  "cursorOf Normal (saveOrganization (newFileSystemStorage None []))
     \<le> cursorOf Normal (snd (snd (snd (processBatchWithType GetTransactions (saveTransactions Normal) 0 49999 ''normal transactions''
          [Returned (replicate 100 \<lparr>hash = ''0xa'', blockNumber = 7\<rparr>),
           Threw (EtherscanError ''Unexpected token'')]
          (saveOrganization (newFileSystemStorage None []))))))
   \<and> cursorOf Normal (snd (snd (snd (processBatchWithType GetTransactions (saveTransactions Normal) 0 49999 ''normal transactions''
          [Returned (replicate 100 \<lparr>hash = ''0xa'', blockNumber = 7\<rparr>),
           Threw (EtherscanError ''Unexpected token'')]
          (saveOrganization (newFileSystemStorage None []))))))
       \<le> fold raiseCursor (savesOf (fst (snd (processBatchWithType GetTransactions (saveTransactions Normal) 0 49999 ''normal transactions''
          [Returned (replicate 100 \<lparr>hash = ''0xa'', blockNumber = 7\<rparr>),
           Threw (EtherscanError ''Unexpected token'')]
          (saveOrganization (newFileSystemStorage None []))))))
            (cursorOf Normal (saveOrganization (newFileSystemStorage None [])))
   \<and> faults (saveOrganization (newFileSystemStorage None [])) = []
   \<and> cursorOf Normal (snd (snd (snd (processBatchWithType GetTransactions (saveTransactions Normal) 0 49999 ''normal transactions''
          [Returned (replicate 100 \<lparr>hash = ''0xa'', blockNumber = 7\<rparr>),
           Threw (EtherscanError ''Unexpected token'')]
          (saveOrganization (newFileSystemStorage None []))))))
       = fold raiseCursor (savesOf (fst (snd (processBatchWithType GetTransactions (saveTransactions Normal) 0 49999 ''normal transactions''
          [Returned (replicate 100 \<lparr>hash = ''0xa'', blockNumber = 7\<rparr>),
           Threw (EtherscanError ''Unexpected token'')]
          (saveOrganization (newFileSystemStorage None []))))))
            (cursorOf Normal (saveOrganization (newFileSystemStorage None [])))
   \<and> savesOf (fst (snd (processBatchWithType GetTransactions (saveTransactions Normal) 0 49999 ''normal transactions''
          [Returned (replicate 100 \<lparr>hash = ''0xa'', blockNumber = 7\<rparr>),
           Threw (EtherscanError ''Unexpected token'')]
          (saveOrganization (newFileSystemStorage None []))))) = [replicate 100 \<lparr>hash = ''0xa'', blockNumber = 7\<rparr>]"
proof -
  let ?fs = "saveOrganization (newFileSystemStorage None [])"
  let ?R = "(processBatchWithType GetTransactions (saveTransactions Normal) 0 49999 ''normal transactions''
          [Returned (replicate 100 \<lparr>hash = ''0xa'', blockNumber = 7\<rparr>),
           Threw (EtherscanError ''Unexpected token'')]
          (saveOrganization (newFileSystemStorage None [])))"
  have hyp: "?R = (fst ?R, fst (snd ?R), fst (snd (snd ?R)), snd (snd (snd ?R)))"
    by simp
  note c = cursor_follows_saved_pages [of GetTransactions Normal 0 49999
      "''normal transactions''" _ ?fs "fst ?R" "fst (snd ?R)" "fst (snd (snd ?R))"
      "snd (snd (snd ?R))", THEN mp, OF hyp]
  have f: "faults ?fs = []"
    by (simp add: storage_simps)
  have sv: "savesOf (fst (snd ?R)) = [replicate 100 \<lparr>hash = ''0xa'', blockNumber = 7\<rparr>]"
    by (simp add: run_simps storage_simps)
  note c1 = c [THEN conjunct1]
  note c2 = c [THEN conjunct2, THEN conjunct1]
  note c3 = c [THEN conjunct2, THEN conjunct2, THEN conjunct1, THEN mp, OF f]
  show ?thesis
    by (intro conjI) (rule c1 c2 c3 f sv)+
qed

section \<open>Claims about pagination\<close>







section \<open>Claims about empty results\<close>





section \<open>Claims about resuming\<close>










section \<open>Claims about the rate limiter\<close>










end
